theory Spec2Isabelle
  imports Main "HOL-Library.Word" "HOL-Library.Signed_Division"
begin

section \<open>The logging engine's types, as far as the facade uses them\<close>

text \<open>
  \<^verbatim>\<open>zapcore.Level\<close> is an \<^verbatim>\<open>int8\<close>; the facade compares levels with the signed
  \<^verbatim>\<open><\<close>, \<^verbatim>\<open><=\<close> and \<^verbatim>\<open>>=\<close> of that type, here \<open><s\<close> and \<open>\<le>s\<close> on 8-bit words.
\<close>

type_synonym Level = "8 word"

text \<open>
  Modelled from the spec: the severity constants of \<^verbatim>\<open>zapcore\<close>, which the facade imports.
  The spec gives the ordered enum debug < info < warn < error < dpanic < panic < fatal, with
  info immediately followed by warn; the numbers are the ones \<^verbatim>\<open>zapcore\<close> assigns.
\<close>

definition DebugLevel :: Level where "DebugLevel = - 1"
definition InfoLevel :: Level where "InfoLevel = 0"
definition WarnLevel :: Level where "WarnLevel = 1"
definition ErrorLevel :: Level where "ErrorLevel = 2"
definition DPanicLevel :: Level where "DPanicLevel = 3"
definition PanicLevel :: Level where "PanicLevel = 4"
definition FatalLevel :: Level where "FatalLevel = 5"

text \<open>An \<^verbatim>\<open>io.Writer\<close> is known by its identity: standard output, or a writer of the caller.\<close>

datatype Writer = Stdout | Writer string

text \<open>An \<^verbatim>\<open>error\<close> made by \<^verbatim>\<open>errors.New\<close> carries its message.\<close>

datatype error = ErrorString string

text \<open>
  \<^verbatim>\<open>zap.Field\<close>: the key, the type tag and the three value slots. \<^verbatim>\<open>zap.String\<close> and
  \<^verbatim>\<open>zap.Reflect\<close> fill the slots as the engine does; a \<^verbatim>\<open>nil\<close> interface is \<open>None\<close>.
\<close>

datatype FieldType = StringType | ReflectType | OtherType nat

record 'a Field =
  Key :: string
  Type :: FieldType
  Integer :: "64 word"
  String :: string
  Interface :: "'a option"

definition zap_String :: "string \<Rightarrow> string \<Rightarrow> 'a Field" where
  "zap_String key val =
     \<lparr>Key = key, Type = StringType, Integer = 0, String = val, Interface = None\<rparr>"

definition zap_Reflect :: "string \<Rightarrow> 'a option \<Rightarrow> 'a Field" where
  "zap_Reflect key val =
     \<lparr>Key = key, Type = ReflectType, Integer = 0, String = [], Interface = val\<rparr>"

text \<open>
  Modelled from the spec: the two key constants \<^verbatim>\<open>Module\<close> and \<^verbatim>\<open>SericeName\<close> of the
  package, declared outside the file at hand; the record shape of the spec names the keys
  \<^verbatim>\<open>module\<close> and \<^verbatim>\<open>serviceName\<close>.
\<close>

definition Module :: string where "Module = ''module''"
definition SericeName :: string where "SericeName = ''serviceName''"

text \<open>
  Go's \<^verbatim>\<open>int64\<close> division truncates towards zero and wraps on overflow. A zero divisor
  makes Go panic; the facade divides by the constant 1000000 only.
\<close>

definition int64_div :: "64 word \<Rightarrow> 64 word \<Rightarrow> 64 word" where
  "int64_div a b = word_of_int (sint a sdiv sint b)"

text \<open>
  The encoder configuration of \<^verbatim>\<open>formatEncoder\<close>: the key names and the duration
  encoder (the value handed to \<^verbatim>\<open>AppendInt64\<close>). The level, time and caller encoders
  format text inside the engine and are not part of the model.
\<close>

record EncoderConfig =
  MessageKey :: string
  LevelKey :: string
  TimeKey :: string
  CallerKey :: string
  FunctionKey :: string
  StacktraceKey :: string
  EncodeDuration :: "64 word \<Rightarrow> 64 word"

text \<open>\<^verbatim>\<open>zapcore.NewCore(encoder, sink, enabler)\<close>, and the logger built by \<^verbatim>\<open>zap.New\<close>.\<close>

record Core =
  core_encoder :: EncoderConfig
  core_writer :: Writer
  core_enabler :: "Level \<Rightarrow> bool"

record 'a ZapLogger =
  zap_cores :: "Core list"
  zap_addCaller :: bool
  zap_addStacktrace :: "Level \<Rightarrow> bool"
  zap_callerSkip :: int
  zap_fields :: "'a Field list"

section \<open>The facade\<close>

record Config =
  InfoFile :: string
  ErrorFile :: string
  Level :: string

record Options =
  level_str :: string
  callSkip :: int
  module :: string
  serviceName :: string
  infoWriter :: Writer
  errorWriter :: Writer

text \<open>
  The field \<^verbatim>\<open>level\<close> of \<^verbatim>\<open>Options\<close> is \<open>level_str\<close> here, since \<open>level\<close> is the
  threshold of the logger. The embedded \<^verbatim>\<open>*zap.Logger\<close> is \<open>None\<close> until \<^verbatim>\<open>zap.New\<close>
  has run.
\<close>

record 'a Logger =
  zapLogger :: "'a ZapLogger option"
  opts :: Options
  level :: Level

text \<open>
  What a logging method of the facade hands to the method of the same name of the embedded
  engine logger: the severity of that method, the message and the merged fields. The
  methods have no result in Go; in particular they have no error result. What the engine
  does with the entry (gating, writing, ending the process after a fatal entry) is its own.
\<close>

record 'a Entry =
  ent_level :: Level
  ent_msg :: string
  ent_fields :: "'a Field list"

text \<open>An \<^verbatim>\<open>Option\<close> mutates the options behind a pointer: it maps the old ones to the new.\<close>

type_synonym Option = "Options \<Rightarrow> Options"

definition defaultOptions :: Options where
  "defaultOptions =
     \<lparr>level_str = ''info'', callSkip = 1, module = ''default'', serviceName = ''default'',
      infoWriter = Stdout, errorWriter = Stdout\<rparr>"

definition WithCallerSkip :: "int \<Rightarrow> Option" where
  "WithCallerSkip skip = (\<lambda>opt. opt\<lparr>callSkip := skip\<rparr>)"

definition WithModule :: "string \<Rightarrow> Option" where
  "WithModule m = (\<lambda>opt. opt\<lparr>module := m\<rparr>)"

definition WithServiceName :: "string \<Rightarrow> Option" where
  "WithServiceName s = (\<lambda>opt. opt\<lparr>serviceName := s\<rparr>)"

definition WithInfoWriter :: "Writer \<Rightarrow> Option" where
  "WithInfoWriter w = (\<lambda>opt. opt\<lparr>infoWriter := w\<rparr>)"

definition WithErrorWriter :: "Writer \<Rightarrow> Option" where
  "WithErrorWriter w = (\<lambda>opt. opt\<lparr>errorWriter := w\<rparr>)"

definition WithLevel :: "string \<Rightarrow> Option" where
  "WithLevel l = (\<lambda>opt. opt\<lparr>level_str := l\<rparr>)"

text \<open>The \<^verbatim>\<open>switch\<close> of \<^verbatim>\<open>zapLevel\<close>, case by case; the result is Go's pair.\<close>

definition zapLevel :: "string \<Rightarrow> Level \<times> error option" where
  "zapLevel lv =
     (if lv = ''debug'' \<or> lv = ''DEBUG'' then (DebugLevel, None)
      else if lv = ''info'' \<or> lv = ''INFO'' \<or> lv = [] then (InfoLevel, None)
      else if lv = ''warn'' \<or> lv = ''WARN'' then (WarnLevel, None)
      else if lv = ''error'' \<or> lv = ''ERROR'' then (ErrorLevel, None)
      else if lv = ''dpanic'' \<or> lv = ''DPANIC'' then (DPanicLevel, None)
      else if lv = ''panic'' \<or> lv = ''PANIC'' then (PanicLevel, None)
      else if lv = ''fatal'' \<or> lv = ''FATAL'' then (FatalLevel, None)
      else (0, Some (ErrorString (''error level:'' @ lv))))"

definition infoEnabler :: "'a Logger \<Rightarrow> Level \<Rightarrow> bool" where
  "infoEnabler l lvl = (if lvl <s level l then False else lvl \<le>s InfoLevel)"

definition errorEnabler :: "'a Logger \<Rightarrow> Level \<Rightarrow> bool" where
  "errorEnabler l lvl = (if lvl <s level l then False else WarnLevel \<le>s lvl)"

definition formatEncoder :: "'a Logger \<Rightarrow> EncoderConfig" where
  "formatEncoder l =
     \<lparr>MessageKey = ''msg'', LevelKey = ''level'', TimeKey = ''time'', CallerKey = ''file'',
      FunctionKey = ''func'', StacktraceKey = ''stack'',
      EncodeDuration = (\<lambda>d. int64_div d 1000000)\<rparr>"

definition GetLevel :: "'a Logger \<Rightarrow> Level" where
  "GetLevel l = level l"

text \<open>
  \<^verbatim>\<open>NewLogger\<close> has the named results \<^verbatim>\<open>(l, err)\<close>: the bare \<^verbatim>\<open>return\<close> after a failed
  \<^verbatim>\<open>zapLevel\<close> leaves \<^verbatim>\<open>l\<close> nil. The loop over the options is \<open>fold\<close>, first option
  first. The configuration \<open>cfg\<close> is a pointer that may be nil; the body never reads it.
\<close>

definition NewLogger :: "Config option \<Rightarrow> Option list \<Rightarrow> 'a Logger option \<times> error option" where
  "NewLogger cfg options =
     (let os = fold (\<lambda>opt s. opt s) options defaultOptions;
          (lv, err) = zapLevel (level_str os)
      in if err \<noteq> None then (None, err)
         else
           let l = \<lparr>zapLogger = None, opts = os, level = lv\<rparr>;
               encoder = formatEncoder l;
               infoE = infoEnabler l;
               errorE = errorEnabler l;
               core = [\<lparr>core_encoder = encoder, core_writer = infoWriter os, core_enabler = infoE\<rparr>,
                       \<lparr>core_encoder = encoder, core_writer = errorWriter os, core_enabler = errorE\<rparr>];
               fields = [zap_String Module (module (opts l)),
                         zap_String SericeName (serviceName (opts l))]
           in (Some (l\<lparr>zapLogger :=
                        Some \<lparr>zap_cores = core, zap_addCaller = True, zap_addStacktrace = errorE,
                              zap_callerSkip = callSkip (opts l), zap_fields = fields\<rparr>\<rparr>),
               None))"

section \<open>Per-call logging\<close>

text \<open>
  A Go map is a finite map. A \<^verbatim>\<open>range\<close> over a map visits every key once, in an order
  that the runtime picks anew each time; the model takes that order as an argument, and
  \<open>range_order m ks\<close> says that \<open>ks\<close> is such an order for \<open>m\<close>.
\<close>

definition range_order :: "('k \<rightharpoonup> 'v) \<Rightarrow> 'k list \<Rightarrow> bool" where
  "range_order m ks \<longleftrightarrow> distinct ks \<and> set ks = dom m"

text \<open>
  The first two loops of \<^verbatim>\<open>extractFields\<close> fill \<^verbatim>\<open>target\<close>: the entries of the
  context's field map, visited in the order \<open>ks1\<close> and wrapped by \<^verbatim>\<open>zap.Reflect\<close>, then
  the call-site fields \<open>flds\<close> in slice order, each stored under its own key.
\<close>

definition extractFields_target ::
  "string list \<Rightarrow> (string \<rightharpoonup> 'a option) \<Rightarrow> 'a Field list \<Rightarrow> (string \<rightharpoonup> 'a Field)" where
  "extractFields_target ks1 fieldsMap flds =
     (let target = fold (\<lambda>k t. case fieldsMap k of Some v \<Rightarrow> t(k \<mapsto> zap_Reflect k v) | None \<Rightarrow> t)
                     ks1 Map.empty
      in fold (\<lambda>f t. t(Key f \<mapsto> f)) flds target)"

text \<open>
  \<open>conv\<close> stands for \<^verbatim>\<open>conversion.StructToMap(ValueHTTPFields(ctx))\<close>, two functions
  outside the file at hand; it returns Go's pair of a map and an error, and
  \<^verbatim>\<open>extractFields\<close> drops the error. The third loop appends the fields of \<^verbatim>\<open>target\<close> to
  the empty slice in the order \<open>ks2\<close> of its \<^verbatim>\<open>range\<close>. The receiver \<open>l\<close> is not read.
\<close>

definition extractFields ::
  "'a Logger \<Rightarrow> ('c \<Rightarrow> (string \<rightharpoonup> 'a option) \<times> error option) \<Rightarrow> string list \<Rightarrow> string list \<Rightarrow>
   'c \<Rightarrow> 'a Field list \<Rightarrow> 'a Field list" where
  "extractFields l conv ks1 ks2 ctx flds =
     (let (fieldsMap, _) = conv ctx;
          target = extractFields_target ks1 fieldsMap flds;
          new = fold (\<lambda>k new. case target k of Some f \<Rightarrow> new @ [f] | None \<Rightarrow> new) ks2 []
      in new)"

definition Debug ::
  "'a Logger \<Rightarrow> ('c \<Rightarrow> (string \<rightharpoonup> 'a option) \<times> error option) \<Rightarrow> string list \<Rightarrow> string list \<Rightarrow>
   'c \<Rightarrow> string \<Rightarrow> 'a Field list \<Rightarrow> 'a Entry" where
  "Debug l conv ks1 ks2 ctx msg flds =
     \<lparr>ent_level = DebugLevel, ent_msg = msg, ent_fields = extractFields l conv ks1 ks2 ctx flds\<rparr>"

definition Info ::
  "'a Logger \<Rightarrow> ('c \<Rightarrow> (string \<rightharpoonup> 'a option) \<times> error option) \<Rightarrow> string list \<Rightarrow> string list \<Rightarrow>
   'c \<Rightarrow> string \<Rightarrow> 'a Field list \<Rightarrow> 'a Entry" where
  "Info l conv ks1 ks2 ctx msg flds =
     \<lparr>ent_level = InfoLevel, ent_msg = msg, ent_fields = extractFields l conv ks1 ks2 ctx flds\<rparr>"

definition Warn ::
  "'a Logger \<Rightarrow> ('c \<Rightarrow> (string \<rightharpoonup> 'a option) \<times> error option) \<Rightarrow> string list \<Rightarrow> string list \<Rightarrow>
   'c \<Rightarrow> string \<Rightarrow> 'a Field list \<Rightarrow> 'a Entry" where
  "Warn l conv ks1 ks2 ctx msg flds =
     \<lparr>ent_level = WarnLevel, ent_msg = msg, ent_fields = extractFields l conv ks1 ks2 ctx flds\<rparr>"

definition Error ::
  "'a Logger \<Rightarrow> ('c \<Rightarrow> (string \<rightharpoonup> 'a option) \<times> error option) \<Rightarrow> string list \<Rightarrow> string list \<Rightarrow>
   'c \<Rightarrow> string \<Rightarrow> 'a Field list \<Rightarrow> 'a Entry" where
  "Error l conv ks1 ks2 ctx msg flds =
     \<lparr>ent_level = ErrorLevel, ent_msg = msg, ent_fields = extractFields l conv ks1 ks2 ctx flds\<rparr>"

definition Fatal ::
  "'a Logger \<Rightarrow> ('c \<Rightarrow> (string \<rightharpoonup> 'a option) \<times> error option) \<Rightarrow> string list \<Rightarrow> string list \<Rightarrow>
   'c \<Rightarrow> string \<Rightarrow> 'a Field list \<Rightarrow> 'a Entry" where
  "Fatal l conv ks1 ks2 ctx msg flds =
     \<lparr>ent_level = FatalLevel, ent_msg = msg, ent_fields = extractFields l conv ks1 ks2 ctx flds\<rparr>"

section \<open>Vocabulary of the specification\<close>

text \<open>
  Modelled from the spec: the failure of the context conversion, whose code
  (\<^verbatim>\<open>ValueHTTPFields\<close> of the package and \<^verbatim>\<open>conversion.StructToMap\<close>) is outside the file
  at hand. The spec calls a failure a non-fatal, empty-result outcome: the conversion
  returns the nil map together with an error.
\<close>

definition conversion_failed :: "(string \<rightharpoonup> 'a option) \<times> error option \<Rightarrow> bool" where
  "conversion_failed r \<longleftrightarrow> fst r = Map.empty \<and> snd r \<noteq> None"

text \<open>
  The level tokens of the spec, in lower case, each with the severity it names; the empty
  string names info. \<open>named_level\<close> reads a token without regard to the case of its
  ASCII letters, which is how the spec describes the match.
\<close>

definition level_tokens :: "(string \<times> Level) list" where
  "level_tokens =
     [(''debug'', DebugLevel), (''info'', InfoLevel), ([], InfoLevel), (''warn'', WarnLevel),
      (''error'', ErrorLevel), (''dpanic'', DPanicLevel), (''panic'', PanicLevel),
      (''fatal'', FatalLevel)]"

definition to_lower :: "char \<Rightarrow> char" where
  "to_lower c =
     (case map_of (zip ''ABCDEFGHIJKLMNOPQRSTUVWXYZ'' ''abcdefghijklmnopqrstuvwxyz'') c of
        Some d \<Rightarrow> d | None \<Rightarrow> c)"

definition to_upper :: "char \<Rightarrow> char" where
  "to_upper c =
     (case map_of (zip ''abcdefghijklmnopqrstuvwxyz'' ''ABCDEFGHIJKLMNOPQRSTUVWXYZ'') c of
        Some d \<Rightarrow> d | None \<Rightarrow> c)"

definition named_level :: "string \<Rightarrow> Level option" where
  "named_level tok = map_of level_tokens (map to_lower tok)"

text \<open>The case labels of the \<^verbatim>\<open>switch\<close> in \<^verbatim>\<open>zapLevel\<close>.\<close>

definition recognized :: "string list" where
  "recognized =
     [''debug'', ''DEBUG'', ''info'', ''INFO'', [], ''warn'', ''WARN'', ''error'', ''ERROR'',
      ''dpanic'', ''DPANIC'', ''panic'', ''PANIC'', ''fatal'', ''FATAL'']"

text \<open>
  The six option constructors as data, so that a list of options can be inspected: the
  fields of \<^verbatim>\<open>Options\<close> are unexported, and outside the package an \<^verbatim>\<open>Option\<close> is
  built by one of the six.
\<close>

datatype setting =
  SetCallerSkip int | SetModule string | SetServiceName string | SetInfoWriter Writer
  | SetErrorWriter Writer | SetLevel string

fun option_of :: "setting \<Rightarrow> Option" where
  "option_of (SetCallerSkip k) = WithCallerSkip k"
| "option_of (SetModule m) = WithModule m"
| "option_of (SetServiceName s) = WithServiceName s"
| "option_of (SetInfoWriter w) = WithInfoWriter w"
| "option_of (SetErrorWriter w) = WithErrorWriter w"
| "option_of (SetLevel l) = WithLevel l"

definition last_or :: "'a \<Rightarrow> 'a list \<Rightarrow> 'a" where
  "last_or d xs = (if xs = [] then d else last xs)"

text \<open>The options in effect after the loop of \<^verbatim>\<open>NewLogger\<close>.\<close>

abbreviation effective :: "Option list \<Rightarrow> Options" where
  "effective options \<equiv> fold (\<lambda>opt s. opt s) options defaultOptions"

text \<open>Sample values for the concrete instances below.\<close>

definition sample_logger :: "string Logger" where
  "sample_logger = \<lparr>zapLogger = None, opts = defaultOptions, level = WarnLevel\<rparr>"

definition request_conv :: "unit \<Rightarrow> (string \<rightharpoonup> string option) \<times> error option" where
  "request_conv = (\<lambda>c. ([''requestId'' \<mapsto> Some ''A''], None))"

definition failing_conv :: "unit \<Rightarrow> (string \<rightharpoonup> string option) \<times> error option" where
  "failing_conv = (\<lambda>c. (Map.empty, Some (ErrorString ''unsupported type'')))"

section \<open>Auxiliary facts\<close>

lemmas Level_defs =
  DebugLevel_def InfoLevel_def WarnLevel_def ErrorLevel_def DPanicLevel_def PanicLevel_def
  FatalLevel_def

lemmas method_defs = Debug_def Info_def Warn_def Error_def Fatal_def

subsection \<open>Parsing the level\<close>

lemma to_upper_tokens:
  "map to_upper ''debug'' = ''DEBUG''" "map to_upper ''info'' = ''INFO''"
  "map to_upper ''warn'' = ''WARN''" "map to_upper ''error'' = ''ERROR''"
  "map to_upper ''dpanic'' = ''DPANIC''" "map to_upper ''panic'' = ''PANIC''"
  "map to_upper ''fatal'' = ''FATAL''"
  by (simp_all add: to_upper_def)

lemma zapLevel_lower:
  "zapLevel ''debug'' = (DebugLevel, None)" "zapLevel ''info'' = (InfoLevel, None)"
  "zapLevel [] = (InfoLevel, None)" "zapLevel ''warn'' = (WarnLevel, None)"
  "zapLevel ''error'' = (ErrorLevel, None)" "zapLevel ''dpanic'' = (DPanicLevel, None)"
  "zapLevel ''panic'' = (PanicLevel, None)" "zapLevel ''fatal'' = (FatalLevel, None)"
  by (simp_all add: zapLevel_def)

lemma zapLevel_upper:
  "zapLevel ''DEBUG'' = (DebugLevel, None)" "zapLevel ''INFO'' = (InfoLevel, None)"
  "zapLevel ''WARN'' = (WarnLevel, None)"
  "zapLevel ''ERROR'' = (ErrorLevel, None)" "zapLevel ''DPANIC'' = (DPanicLevel, None)"
  "zapLevel ''PANIC'' = (PanicLevel, None)" "zapLevel ''FATAL'' = (FatalLevel, None)"
  by (simp_all add: zapLevel_def)

lemma zapLevel_tokens_all:
  "\<forall>(name, sev) \<in> set level_tokens.
     zapLevel name = (sev, None) \<and> zapLevel (map to_upper name) = (sev, None)"
  unfolding level_tokens_def
  by (simp add: zapLevel_lower zapLevel_upper to_upper_def)

lemma zapLevel_tokens:
  assumes "(name, sev) \<in> set level_tokens" "tok = name \<or> tok = map to_upper name"
  shows "zapLevel tok = (sev, None)"
  using zapLevel_tokens_all assms by blast

lemma zapLevel_unrecognized:
  "lv \<notin> set recognized \<Longrightarrow> zapLevel lv = (0, Some (ErrorString (''error level:'' @ lv)))"
  by (simp add: recognized_def zapLevel_def)

lemma zapLevel_recognized:
  "lv \<in> set recognized \<Longrightarrow> snd (zapLevel lv) = None"
  by (auto simp: recognized_def zapLevel_def)

lemma NewLogger_success:
  assumes "zapLevel (level_str (effective options)) = (sev, None)"
  shows "\<exists>z. NewLogger cfg options =
           (Some \<lparr>zapLogger = Some z, opts = effective options, level = sev\<rparr>, None)"
  using assms by (simp add: NewLogger_def Let_def)

lemma NewLogger_failure:
  assumes "zapLevel (level_str (effective options)) = (x, Some e)"
  shows "NewLogger cfg options = (None, Some e)"
  using assms by (simp add: NewLogger_def Let_def)

lemma recognized_named: "\<forall>lv \<in> set recognized. named_level lv \<noteq> None"
  unfolding recognized_def by (simp add: named_level_def level_tokens_def to_lower_def)

text \<open>
  The two cores of a constructed logger write to the two writers of the options and are
  gated by the two enablers at the threshold of the logger.
\<close>

lemma NewLogger_cores:
  assumes "NewLogger cfg options = (Some l, None)"
  shows "\<exists>z. zapLogger l = Some z \<and>
           map core_writer (zap_cores z) = [infoWriter (opts l), errorWriter (opts l)] \<and>
           map core_enabler (zap_cores z) = [infoEnabler l, errorEnabler l] \<and>
           zap_addStacktrace z = errorEnabler l \<and>
           zap_fields z = [zap_String Module (module (opts l)),
                           zap_String SericeName (serviceName (opts l))]"
  using assms
  by (auto simp: NewLogger_def Let_def infoEnabler_def errorEnabler_def fun_eq_iff
      split: prod.splits if_splits)

subsection \<open>Options\<close>

lemma NewLogger_opts:
  assumes "snd (NewLogger cfg options :: 'a Logger option \<times> error option) = None"
  shows "map_option opts (fst (NewLogger cfg options :: 'a Logger option \<times> error option)) =
           Some (effective options)"
  using assms by (auto simp: NewLogger_def Let_def split: prod.splits if_splits)

lemma effective_settings:
  "effective (map option_of ss) =
     \<lparr>level_str = last_or ''info'' [x. SetLevel x \<leftarrow> ss],
      callSkip = last_or 1 [x. SetCallerSkip x \<leftarrow> ss],
      module = last_or ''default'' [x. SetModule x \<leftarrow> ss],
      serviceName = last_or ''default'' [x. SetServiceName x \<leftarrow> ss],
      infoWriter = last_or Stdout [x. SetInfoWriter x \<leftarrow> ss],
      errorWriter = last_or Stdout [x. SetErrorWriter x \<leftarrow> ss]\<rparr>"
proof (induction ss rule: rev_induct)
  case Nil
  show ?case by (simp add: defaultOptions_def last_or_def)
next
  case (snoc x xs)
  then show ?case
    by (cases x)
      (simp_all add: last_or_def WithCallerSkip_def WithModule_def WithServiceName_def
        WithInfoWriter_def WithErrorWriter_def WithLevel_def)
qed

subsection \<open>Duration\<close>

lemma trunc_div_bounds:
  fixes k B :: int
  assumes "- B \<le> k" "k < B"
  shows "- B \<le> sgn k * (\<bar>k\<bar> div 1000000) \<and> sgn k * (\<bar>k\<bar> div 1000000) < B"
proof -
  have le: "\<bar>k\<bar> div 1000000 \<le> \<bar>k\<bar>" by linarith
  have nn: "0 \<le> \<bar>k\<bar> div 1000000" by simp
  consider "k = 0" | "0 < k" | "k < 0" by linarith
  then show ?thesis
  proof cases
    case 1 with assms show ?thesis by simp
  next
    case 2 with assms le nn show ?thesis by simp
  next
    case 3 with assms le nn show ?thesis by simp
  qed
qed

lemma sint_million: "sint (1000000 :: 64 word) = 1000000"
  by simp

lemma sint_int64_div_million:
  "sint (int64_div d 1000000) = sgn (sint d) * (\<bar>sint d\<bar> div 1000000)"
proof -
  let ?k = "sint d"
  let ?q = "sgn ?k * (\<bar>?k\<bar> div 1000000)"
  have "- (2 ^ 63) \<le> ?k" "?k < 2 ^ 63"
    using sint_ge [of d] sint_lt [of d] by simp_all
  then have q: "- (2 ^ 63) \<le> ?q \<and> ?q < 2 ^ 63"
    by (rule trunc_div_bounds)
  have "sint (int64_div d 1000000) = signed_take_bit 63 (?k sdiv 1000000)"
    unfolding int64_div_def sint_sbintrunc' sint_million by simp
  also have "\<dots> = signed_take_bit 63 ?q"
    unfolding signed_divide_int_def by simp
  also have "\<dots> = ?q"
    using q by (simp only: signed_take_bit_int_eq_self_iff)
  finally show ?thesis .
qed

subsection \<open>The three loops of the field merge\<close>

lemma ctx_loop:
  "fold (\<lambda>k t. case m k of Some v \<Rightarrow> t(k \<mapsto> g k v) | None \<Rightarrow> t) ks t0 k =
     (if k \<in> set ks then (case m k of Some v \<Rightarrow> Some (g k v) | None \<Rightarrow> t0 k) else t0 k)"
  by (induction ks arbitrary: t0) (auto split: option.splits)

lemma fields_loop:
  "fold (\<lambda>f t. t(Key f \<mapsto> f)) flds t0 k =
     (if k \<in> Key ` set flds then Some (last [f \<leftarrow> flds. Key f = k]) else t0 k)"
proof (induction flds arbitrary: t0 rule: rev_induct)
  case Nil
  show ?case by simp
next
  case (snoc x xs)
  let ?F = "\<lambda>f t. t(Key f \<mapsto> f)"
  have "fold ?F (xs @ [x]) t0 k = (if k = Key x then Some x else fold ?F xs t0 k)"
    by simp
  also have "\<dots> = (if k = Key x then Some x
                    else if k \<in> Key ` set xs then Some (last [f \<leftarrow> xs. Key f = k]) else t0 k)"
    by (simp only: snoc)
  also have "\<dots> = (if k \<in> Key ` set (xs @ [x]) then Some (last [f \<leftarrow> xs @ [x]. Key f = k])
                    else t0 k)"
    by auto
  finally show ?case .
qed

lemma collect_loop:
  "fold (\<lambda>k new. case t k of Some f \<Rightarrow> new @ [f] | None \<Rightarrow> new) ks acc = acc @ List.map_filter t ks"
  by (induction ks arbitrary: acc) (auto split: option.splits)

lemma target_lookup:
  assumes "range_order fieldsMap ks1"
  shows "extractFields_target ks1 fieldsMap flds k =
     (if k \<in> Key ` set flds then Some (last [f \<leftarrow> flds. Key f = k])
      else map_option (zap_Reflect k) (fieldsMap k))"
  using assms
  by (auto simp: extractFields_target_def fields_loop ctx_loop range_order_def
      split: option.splits)

lemma target_Key:
  assumes "range_order fieldsMap ks1" "extractFields_target ks1 fieldsMap flds k = Some f"
  shows "Key f = k"
proof (cases "k \<in> Key ` set flds")
  case True
  then have ne: "[f \<leftarrow> flds. Key f = k] \<noteq> []"
    by (auto simp: filter_empty_conv)
  from True assms have "f = last [f \<leftarrow> flds. Key f = k]"
    by (simp add: target_lookup)
  with last_in_set [OF ne] show ?thesis by simp
next
  case False
  with assms show ?thesis
    by (auto simp: target_lookup zap_Reflect_def)
qed

lemma dom_target:
  assumes "range_order fieldsMap ks1"
  shows "dom (extractFields_target ks1 fieldsMap flds) = dom fieldsMap \<union> Key ` set flds"
  using assms by (auto simp: target_lookup dom_def split: if_splits)

lemma extractFields_eq:
  assumes "conv ctx = (fieldsMap, err)"
  shows "extractFields l conv ks1 ks2 ctx flds =
           List.map_filter (extractFields_target ks1 fieldsMap flds) ks2"
  using assms by (simp add: extractFields_def collect_loop)

lemma set_map_filter: "set (List.map_filter t ks) = {f. \<exists>k \<in> set ks. t k = Some f}"
  by (induction ks) (auto split: option.splits)

lemma map_Key_map_filter:
  assumes "\<And>k f. t k = Some f \<Longrightarrow> Key f = k" "set ks \<subseteq> dom t"
  shows "map Key (List.map_filter t ks) = ks"
  using assms(2)
proof (induction ks)
  case Nil
  show ?case by simp
next
  case (Cons k ks)
  then obtain f where "t k = Some f" by auto
  with Cons assms(1) [of k f] show ?case
    by simp
qed

lemma set_collected:
  assumes "range_order t ks"
  shows "set (List.map_filter t ks) = ran t"
  using assms by (auto simp: set_map_filter range_order_def ran_def)

lemma Key_collected:
  assumes "range_order fieldsMap ks1"
    and "range_order (extractFields_target ks1 fieldsMap flds) ks2"
  shows "map Key (List.map_filter (extractFields_target ks1 fieldsMap flds) ks2) = ks2"
proof -
  have "set ks2 \<subseteq> dom (extractFields_target ks1 fieldsMap flds)"
    using assms(2) by (simp add: range_order_def)
  then show ?thesis
    using target_Key [OF assms(1)] by (rule map_Key_map_filter [rotated])
qed

lemma last_filter_in:
  assumes "k \<in> Key ` set flds"
  shows "last [g \<leftarrow> flds. Key g = k] \<in> set flds \<and> Key (last [g \<leftarrow> flds. Key g = k]) = k"
proof -
  from assms have ne: "[g \<leftarrow> flds. Key g = k] \<noteq> []"
    by (auto simp: filter_empty_conv)
  from last_in_set [OF ne] show ?thesis by simp
qed

lemma range_order_empty: "range_order Map.empty []"
  by (simp add: range_order_def)

lemma fold_skip: "fold (\<lambda>k t. t) ks t0 = t0"
  by (induction ks) simp_all

lemma target_ignores_order_of_nil:
  "extractFields_target ks1 Map.empty flds = extractFields_target [] Map.empty flds"
  by (simp add: extractFields_target_def fold_skip)

section \<open>Routing by severity\<close>

text \<open>
  C1. Whatever the threshold \<open>level l\<close> of the logger and whatever the level \<open>lvl\<close> of a
  record, the enabler of the info sink accepts \<open>lvl\<close> exactly when it is at or above the
  threshold and at most info, and the enabler of the error sink exactly when it is at or
  above the threshold and at least warn.
\<close>

theorem enablers_accept_iff:
  "infoEnabler l lvl = (level l \<le>s lvl \<and> lvl \<le>s InfoLevel) \<and>
   errorEnabler l lvl = (level l \<le>s lvl \<and> WarnLevel \<le>s lvl)"
  by (auto simp: infoEnabler_def errorEnabler_def word_sle_eq word_sless_alt)

text \<open>With the threshold warn, an error record is refused by the info sink and accepted by the error sink.\<close>

theorem enablers_accept_iff_witness:
  "\<not> infoEnabler sample_logger ErrorLevel \<and> errorEnabler sample_logger ErrorLevel"
  using enablers_accept_iff [of sample_logger ErrorLevel]
  by (simp add: sample_logger_def Level_defs word_sle_eq)

text \<open>
  C4. For every level \<open>lvl\<close> (every \<^verbatim>\<open>int8\<close>, so every level of the enum) and every
  threshold: at or above the threshold exactly one of the two enablers accepts \<open>lvl\<close>,
  and below the threshold neither does.
\<close>

theorem enablers_partition:
  "(level l \<le>s lvl \<longrightarrow> infoEnabler l lvl \<noteq> errorEnabler l lvl) \<and>
   (lvl <s level l \<longrightarrow> \<not> infoEnabler l lvl \<and> \<not> errorEnabler l lvl)"
  by (auto simp: infoEnabler_def errorEnabler_def word_sle_eq word_sless_alt InfoLevel_def
      WarnLevel_def)

text \<open>
  With the threshold warn: an error record goes to the error sink only, an info record to
  neither sink.
\<close>

theorem enablers_partition_witness:
  "(level sample_logger \<le>s ErrorLevel \<and>
      infoEnabler sample_logger ErrorLevel \<noteq> errorEnabler sample_logger ErrorLevel \<and>
      errorEnabler sample_logger ErrorLevel) \<and>
   (InfoLevel <s level sample_logger \<and>
      \<not> infoEnabler sample_logger InfoLevel \<and> \<not> errorEnabler sample_logger InfoLevel)"
proof -
  have a: "level sample_logger \<le>s ErrorLevel"
    by (simp add: sample_logger_def Level_defs word_sle_eq)
  have b: "InfoLevel <s level sample_logger"
    by (simp add: sample_logger_def Level_defs word_sless_alt)
  have c: "errorEnabler sample_logger ErrorLevel"
    by (simp add: errorEnabler_def sample_logger_def Level_defs word_sle_eq word_sless_alt)
  from enablers_partition [of sample_logger ErrorLevel]
    enablers_partition [of sample_logger InfoLevel] a b c
  show ?thesis by blast
qed

section \<open>Construction\<close>

text \<open>
  C3, as amended. For each level token of the spec, spelled entirely in lower case or
  entirely in upper case (the empty string counting as info): if the options leave that
  spelling as the level, \<^verbatim>\<open>NewLogger\<close> succeeds and \<^verbatim>\<open>GetLevel\<close> of the logger is the
  severity the token names.
\<close>

theorem NewLogger_level_token:
  assumes "(name, sev) \<in> set level_tokens"
    and "tok = name \<or> tok = map to_upper name"
    and "level_str (fold (\<lambda>opt s. opt s) options defaultOptions) = tok"
  shows "map_option GetLevel (fst (NewLogger cfg options :: 'a Logger option \<times> error option))
           = Some sev \<and>
         snd (NewLogger cfg options :: 'a Logger option \<times> error option) = None"
proof -
  have "zapLevel (level_str (effective options)) = (sev, None)"
    using assms by (simp add: zapLevel_tokens)
  then obtain z :: "'a ZapLogger" where
    "NewLogger cfg options =
       (Some \<lparr>zapLogger = Some z, opts = effective options, level = sev\<rparr>, None)"
    using NewLogger_success by blast
  then show ?thesis
    by (simp add: GetLevel_def)
qed

theorem NewLogger_level_token_witness:
  "(''warn'', WarnLevel) \<in> set level_tokens \<and>
   (''WARN'' = ''warn'' \<or> ''WARN'' = map to_upper ''warn'') \<and>
   level_str (fold (\<lambda>opt s. opt s) [WithModule ''m'', WithLevel ''WARN''] defaultOptions) = ''WARN'' \<and>
   map_option GetLevel
     (fst (NewLogger None [WithModule ''m'', WithLevel ''WARN''] :: unit Logger option \<times> error option))
     = Some WarnLevel \<and>
   snd (NewLogger None [WithModule ''m'', WithLevel ''WARN''] :: unit Logger option \<times> error option) = None"
proof -
  have a: "(''warn'', WarnLevel) \<in> set level_tokens"
    by (simp add: level_tokens_def)
  have b: "''WARN'' = ''warn'' \<or> ''WARN'' = map to_upper ''warn''"
    by (simp add: to_upper_def)
  have c: "level_str (fold (\<lambda>opt s. opt s) [WithModule ''m'', WithLevel ''WARN''] defaultOptions) = ''WARN''"
    by (simp add: WithModule_def WithLevel_def)
  from NewLogger_level_token [OF a b c, of None, where ?'a = unit] a b c show ?thesis
    by blast
qed

text \<open>
  C3 as stated fails: the match is not case-insensitive. \<^verbatim>\<open>Debug\<close> names the debug
  severity when read without regard to case, and \<^verbatim>\<open>NewLogger\<close> rejects it, since the
  \<^verbatim>\<open>switch\<close> lists only the spellings \<^verbatim>\<open>debug\<close> and \<^verbatim>\<open>DEBUG\<close>.
\<close>

theorem NewLogger_mixed_case_counterexample:
  "named_level ''Debug'' = Some DebugLevel \<and>
   (NewLogger None [WithLevel ''Debug''] :: unit Logger option \<times> error option) =
     (None, Some (ErrorString ''error level:Debug''))"
  by (simp add: named_level_def level_tokens_def to_lower_def NewLogger_def WithLevel_def
      defaultOptions_def zapLevel_def)

text \<open>
  C5. If the level left by the options is none of the case labels of \<^verbatim>\<open>zapLevel\<close>, then
  \<^verbatim>\<open>NewLogger\<close> returns no logger, and an error whose message ends with that very level
  string. (Every string that is no token when read case-insensitively is no case label
  either, by \<open>recognized_named\<close>.)
\<close>

theorem NewLogger_unrecognized_level:
  assumes "level_str (fold (\<lambda>opt s. opt s) options defaultOptions) = lv"
    and "lv \<notin> set recognized"
  shows "NewLogger cfg options = (None, Some (ErrorString (''error level:'' @ lv)))"
  using assms by (simp add: NewLogger_failure zapLevel_unrecognized)

theorem NewLogger_unrecognized_level_witness:
  "level_str (fold (\<lambda>opt s. opt s) [WithLevel ''verbose''] defaultOptions) = ''verbose'' \<and>
   ''verbose'' \<notin> set recognized \<and>
   (NewLogger None [WithLevel ''verbose''] :: unit Logger option \<times> error option) =
     (None, Some (ErrorString ''error level:verbose''))"
proof -
  have a: "level_str (fold (\<lambda>opt s. opt s) [WithLevel ''verbose''] defaultOptions) = ''verbose''"
    by (simp add: WithLevel_def)
  have b: "''verbose'' \<notin> set recognized"
    by (simp add: recognized_def)
  from NewLogger_unrecognized_level [OF a b, of None, where ?'a = unit] a b show ?thesis
    by simp
qed

text \<open>
  C6. The options are applied to the defaults in call order: the options held by the
  constructed logger are the defaults (level info, caller skip 1, module and service name
  default, both writers standard output) with the first option applied, then the second,
  and so on, whatever functions the options are. So the last option that sets a field
  decides it: for a list of options built by the six constructors, each field has the
  value of the last setting of that field, and the default where no option sets it.
\<close>

theorem options_last_write_wins:
  "(snd (NewLogger cfg options :: 'a Logger option \<times> error option) = None \<longrightarrow>
      map_option opts (fst (NewLogger cfg options :: 'a Logger option \<times> error option)) =
        Some (foldl (\<lambda>s opt. opt s) defaultOptions options)) \<and>
   (snd (NewLogger cfg (map option_of ss) :: 'a Logger option \<times> error option) = None \<longrightarrow>
      map_option opts (fst (NewLogger cfg (map option_of ss) :: 'a Logger option \<times> error option)) =
        Some \<lparr>level_str = last_or ''info'' [x. SetLevel x \<leftarrow> ss],
              callSkip = last_or 1 [x. SetCallerSkip x \<leftarrow> ss],
              module = last_or ''default'' [x. SetModule x \<leftarrow> ss],
              serviceName = last_or ''default'' [x. SetServiceName x \<leftarrow> ss],
              infoWriter = last_or Stdout [x. SetInfoWriter x \<leftarrow> ss],
              errorWriter = last_or Stdout [x. SetErrorWriter x \<leftarrow> ss]\<rparr>)"
proof (intro conjI impI)
  assume "snd (NewLogger cfg options :: 'a Logger option \<times> error option) = None"
  then have "map_option opts (fst (NewLogger cfg options :: 'a Logger option \<times> error option)) =
      Some (effective options)"
    by (rule NewLogger_opts)
  then show "map_option opts (fst (NewLogger cfg options :: 'a Logger option \<times> error option)) =
      Some (foldl (\<lambda>s opt. opt s) defaultOptions options)"
    by (simp add: foldl_conv_fold)
next
  assume "snd (NewLogger cfg (map option_of ss) :: 'a Logger option \<times> error option) = None"
  then have "map_option opts
      (fst (NewLogger cfg (map option_of ss) :: 'a Logger option \<times> error option)) =
      Some (effective (map option_of ss))"
    by (rule NewLogger_opts)
  then show "map_option opts
      (fst (NewLogger cfg (map option_of ss) :: 'a Logger option \<times> error option)) =
        Some \<lparr>level_str = last_or ''info'' [x. SetLevel x \<leftarrow> ss],
              callSkip = last_or 1 [x. SetCallerSkip x \<leftarrow> ss],
              module = last_or ''default'' [x. SetModule x \<leftarrow> ss],
              serviceName = last_or ''default'' [x. SetServiceName x \<leftarrow> ss],
              infoWriter = last_or Stdout [x. SetInfoWriter x \<leftarrow> ss],
              errorWriter = last_or Stdout [x. SetErrorWriter x \<leftarrow> ss]\<rparr>"
    by (simp only: effective_settings)
qed

text \<open>Module a, then module b, then a caller skip: module b is in effect.\<close>

theorem options_last_write_wins_witness:
  "snd (NewLogger None (map option_of [SetModule ''a'', SetModule ''b'', SetCallerSkip 2])
         :: unit Logger option \<times> error option) = None \<and>
   map_option opts
     (fst (NewLogger None (map option_of [SetModule ''a'', SetModule ''b'', SetCallerSkip 2])
         :: unit Logger option \<times> error option)) =
     Some (foldl (\<lambda>s opt. opt s) defaultOptions
             [WithModule ''a'', WithModule ''b'', WithCallerSkip 2]) \<and>
   map_option opts
     (fst (NewLogger None (map option_of [SetModule ''a'', SetModule ''b'', SetCallerSkip 2])
         :: unit Logger option \<times> error option)) =
     Some \<lparr>level_str = ''info'', callSkip = 2, module = ''b'', serviceName = ''default'',
           infoWriter = Stdout, errorWriter = Stdout\<rparr>"
proof -
  have a: "snd (NewLogger None (map option_of [SetModule ''a'', SetModule ''b'', SetCallerSkip 2])
         :: unit Logger option \<times> error option) = None"
    by (simp add: NewLogger_def Let_def WithModule_def WithCallerSkip_def defaultOptions_def
        zapLevel_lower)
  from options_last_write_wins
    [of None "map option_of [SetModule ''a'', SetModule ''b'', SetCallerSkip 2]"
      "[SetModule ''a'', SetModule ''b'', SetCallerSkip 2]", where ?'a = unit] a
  show ?thesis
    by (simp add: last_or_def)
qed

text \<open>
  C7. The result of \<^verbatim>\<open>NewLogger\<close> is the same for any two configurations, nil pointers
  included, when the options are the same: threshold, sinks, module and service fields
  come from the options alone.
\<close>

theorem NewLogger_ignores_Config:
  "(NewLogger cfg1 options :: 'a Logger option \<times> error option) = NewLogger cfg2 options"
  by (simp add: NewLogger_def)

text \<open>A configuration that asks for debug and names two files changes nothing.\<close>

theorem NewLogger_ignores_Config_witness:
  "(NewLogger (Some \<lparr>InfoFile = ''info.log'', ErrorFile = ''error.log'', Level = ''debug''\<rparr>)
      [WithLevel ''warn''] :: unit Logger option \<times> error option) =
   NewLogger None [WithLevel ''warn'']"
  using NewLogger_ignores_Config
    [of "Some \<lparr>InfoFile = ''info.log'', ErrorFile = ''error.log'', Level = ''debug''\<rparr>"
      "[WithLevel ''warn'']" None]
  by simp

section \<open>Encoding of durations\<close>

text \<open>
  C8. For every duration \<open>d\<close>, an \<^verbatim>\<open>int64\<close> of nanoseconds, the duration encoder emits
  the quotient of \<open>d\<close> by 1000000 truncated towards zero: its sign is the sign of \<open>d\<close>
  and its magnitude the whole number of milliseconds in the magnitude of \<open>d\<close>.
\<close>

theorem EncodeDuration_milliseconds:
  "sint (EncodeDuration (formatEncoder l) d) = sgn (sint d) * (\<bar>sint d\<bar> div 1000000)"
  by (simp add: formatEncoder_def sint_int64_div_million)

text \<open>A negative duration of one and a half milliseconds is encoded as minus one.\<close>

theorem EncodeDuration_milliseconds_witness:
  "sint (EncodeDuration (formatEncoder sample_logger) (- 1500000)) = - 1"
  using EncodeDuration_milliseconds [of sample_logger "- 1500000"]
  by simp

section \<open>Merging the fields of a call\<close>

text \<open>
  C2. Let the conversion of the context yield the map \<open>fieldsMap\<close>, and let \<open>ks1\<close> and
  \<open>ks2\<close> be the orders in which the two \<^verbatim>\<open>range\<close> loops visit their maps. Whatever
  these orders, the names of the merged fields are those of the context together with
  those of the call site; a merged field whose name occurs at the call site is one of the
  call-site fields, and any other is the \<^verbatim>\<open>zap.Reflect\<close> of the context's value.
\<close>

theorem extractFields_union_call_site_wins:
  assumes "conv ctx = (fieldsMap, err)"
    and "range_order fieldsMap ks1"
    and "range_order (extractFields_target ks1 fieldsMap flds) ks2"
  shows "Key ` set (extractFields l conv ks1 ks2 ctx flds) = dom fieldsMap \<union> Key ` set flds \<and>
         (\<forall>f \<in> set (extractFields l conv ks1 ks2 ctx flds).
            if Key f \<in> Key ` set flds then f \<in> set flds
            else \<exists>v. fieldsMap (Key f) = Some v \<and> f = zap_Reflect (Key f) v)"
proof (intro conjI ballI)
  have out: "extractFields l conv ks1 ks2 ctx flds =
               List.map_filter (extractFields_target ks1 fieldsMap flds) ks2"
    using assms(1) by (rule extractFields_eq [of conv ctx])
  have "Key ` set (extractFields l conv ks1 ks2 ctx flds) = set ks2"
    unfolding out using Key_collected [OF assms(2,3)] by (metis set_map)
  also have "\<dots> = dom fieldsMap \<union> Key ` set flds"
    using assms(3) by (simp add: range_order_def dom_target [OF assms(2)])
  finally show "Key ` set (extractFields l conv ks1 ks2 ctx flds) = dom fieldsMap \<union> Key ` set flds" .
next
  fix f
  have out: "extractFields l conv ks1 ks2 ctx flds =
               List.map_filter (extractFields_target ks1 fieldsMap flds) ks2"
    using assms(1) by (rule extractFields_eq [of conv ctx])
  assume "f \<in> set (extractFields l conv ks1 ks2 ctx flds)"
  then obtain k where k: "extractFields_target ks1 fieldsMap flds k = Some f"
    by (auto simp: out set_collected [OF assms(3)] ran_def)
  then have kf: "Key f = k"
    by (rule target_Key [OF assms(2)])
  show "if Key f \<in> Key ` set flds then f \<in> set flds
        else \<exists>v. fieldsMap (Key f) = Some v \<and> f = zap_Reflect (Key f) v"
  proof (cases "k \<in> Key ` set flds")
    case True
    with k have "f = last [g \<leftarrow> flds. Key g = k]"
      by (simp add: target_lookup [OF assms(2)])
    with last_filter_in [OF True] True kf show ?thesis by simp
  next
    case False
    with k kf show ?thesis
      by (auto simp: target_lookup [OF assms(2)])
  qed
qed

text \<open>
  The context gives \<^verbatim>\<open>requestId\<close> = A, the call site \<^verbatim>\<open>requestId\<close> = B and
  \<^verbatim>\<open>userId\<close> = U: both names are in the result, and \<^verbatim>\<open>requestId\<close> has the value B.
\<close>

theorem extractFields_union_call_site_wins_witness:
  "request_conv () = ([''requestId'' \<mapsto> Some ''A''], None) \<and>
   range_order [''requestId'' \<mapsto> Some ''A''] [''requestId''] \<and>
   range_order
     (extractFields_target [''requestId''] [''requestId'' \<mapsto> Some ''A'']
        [zap_String ''requestId'' ''B'', zap_String ''userId'' ''U''])
     [''userId'', ''requestId''] \<and>
   Key ` set (extractFields sample_logger request_conv [''requestId''] [''userId'', ''requestId'']
                () [zap_String ''requestId'' ''B'', zap_String ''userId'' ''U'']) =
     dom [''requestId'' \<mapsto> Some ''A''] \<union>
     Key ` set [zap_String ''requestId'' ''B'', zap_String ''userId'' ''U'' :: string Field] \<and>
   extractFields sample_logger request_conv [''requestId''] [''userId'', ''requestId'']
     () [zap_String ''requestId'' ''B'', zap_String ''userId'' ''U''] =
     [zap_String ''userId'' ''U'', zap_String ''requestId'' ''B'']"
proof -
  have a: "request_conv () = ([''requestId'' \<mapsto> Some ''A''], None)"
    by (simp add: request_conv_def)
  have b: "range_order [''requestId'' \<mapsto> Some ''A''] [''requestId'']"
    by (simp add: range_order_def)
  have c: "range_order
     (extractFields_target [''requestId''] [''requestId'' \<mapsto> Some ''A'']
        [zap_String ''requestId'' ''B'', zap_String ''userId'' ''U'' :: string Field])
     [''userId'', ''requestId'']"
    by (auto simp: range_order_def extractFields_target_def zap_String_def)
  have d: "extractFields sample_logger request_conv [''requestId''] [''userId'', ''requestId'']
     () [zap_String ''requestId'' ''B'', zap_String ''userId'' ''U''] =
     [zap_String ''userId'' ''U'', zap_String ''requestId'' ''B'']"
    by (simp add: extractFields_def extractFields_target_def request_conv_def zap_String_def)
  from extractFields_union_call_site_wins [of request_conv "()", OF a b c, of sample_logger]
  have "Key ` set (extractFields sample_logger request_conv [''requestId''] [''userId'', ''requestId'']
                () [zap_String ''requestId'' ''B'', zap_String ''userId'' ''U'']) =
     dom [''requestId'' \<mapsto> Some ''A''] \<union>
     Key ` set [zap_String ''requestId'' ''B'', zap_String ''userId'' ''U'' :: string Field]"
    by (rule conjunct1)
  with a b c d show ?thesis
    by (intro conjI)
qed

text \<open>
  C9. When the conversion of the context fails, every one of the five methods hands to
  the engine the fields that \<^verbatim>\<open>extractFields\<close> returns, and these are call-site fields
  only, one for each name used at the call site: the same fields as after a conversion
  that succeeds with no entries. The methods have no error result, and the error of the
  conversion is in none of their results.
\<close>

theorem conversion_failure_swallowed:
  assumes "conversion_failed (conv ctx)"
    and "range_order (extractFields_target ks1 Map.empty flds) ks2"
  shows "set (extractFields l conv ks1 ks2 ctx flds) \<subseteq> set flds \<and>
         Key ` set (extractFields l conv ks1 ks2 ctx flds) = Key ` set flds \<and>
         extractFields l conv ks1 ks2 ctx flds =
           extractFields l (\<lambda>c. (Map.empty, None)) ks1 ks2 ctx flds \<and>
         ent_fields (Debug l conv ks1 ks2 ctx msg flds) = extractFields l conv ks1 ks2 ctx flds \<and>
         ent_fields (Info l conv ks1 ks2 ctx msg flds) = extractFields l conv ks1 ks2 ctx flds \<and>
         ent_fields (Warn l conv ks1 ks2 ctx msg flds) = extractFields l conv ks1 ks2 ctx flds \<and>
         ent_fields (Error l conv ks1 ks2 ctx msg flds) = extractFields l conv ks1 ks2 ctx flds \<and>
         ent_fields (Fatal l conv ks1 ks2 ctx msg flds) = extractFields l conv ks1 ks2 ctx flds"
proof -
  obtain e where c: "conv ctx = (Map.empty, e)"
    using assms(1) by (cases "conv ctx") (simp add: conversion_failed_def)
  let ?out = "extractFields l conv ks1 ks2 ctx flds"
  have look: "extractFields_target ks1 Map.empty flds k =
      (if k \<in> Key ` set flds then Some (last [g \<leftarrow> flds. Key g = k]) else None)" for k
    by (simp add: target_ignores_order_of_nil [of ks1] target_lookup [OF range_order_empty])
  have out: "?out = List.map_filter (extractFields_target ks1 Map.empty flds) ks2"
    using c by (rule extractFields_eq [of conv ctx])
  have s: "set ?out = ran (extractFields_target ks1 Map.empty flds)"
    unfolding out using assms(2) by (rule set_collected)
  have sub: "set ?out \<subseteq> set flds"
    using last_filter_in [of _ flds] by (auto simp: s ran_def look split: if_splits)
  have keys: "Key ` set ?out = Key ` set flds"
  proof
    show "Key ` set ?out \<subseteq> Key ` set flds"
      using sub by blast
    show "Key ` set flds \<subseteq> Key ` set ?out"
    proof
      fix k
      assume k: "k \<in> Key ` set flds"
      then have "last [g \<leftarrow> flds. Key g = k] \<in> set ?out"
        by (auto simp: s ran_def look)
      with last_filter_in [OF k] show "k \<in> Key ` set ?out"
        by (metis imageI)
    qed
  qed
  have same: "?out = extractFields l (\<lambda>c. (Map.empty, None)) ks1 ks2 ctx flds"
    by (simp add: out extractFields_eq [of "\<lambda>c. (Map.empty, None)" ctx Map.empty None])
  from sub keys same show ?thesis
    by (simp add: method_defs)
qed

theorem conversion_failure_swallowed_witness:
  "conversion_failed (failing_conv ()) \<and>
   range_order (extractFields_target [] Map.empty [zap_String ''userId'' ''U'' :: string Field])
     [''userId''] \<and>
   ent_fields (Error sample_logger failing_conv [] [''userId''] () ''boom''
                 [zap_String ''userId'' ''U'']) =
     extractFields sample_logger failing_conv [] [''userId''] () [zap_String ''userId'' ''U''] \<and>
   set (extractFields sample_logger failing_conv [] [''userId''] () [zap_String ''userId'' ''U''])
     \<subseteq> set [zap_String ''userId'' ''U''] \<and>
   extractFields sample_logger failing_conv [] [''userId''] () [zap_String ''userId'' ''U''] =
     [zap_String ''userId'' ''U'']"
proof -
  have a: "conversion_failed (failing_conv ())"
    by (simp add: conversion_failed_def failing_conv_def)
  have b: "range_order
      (extractFields_target [] Map.empty [zap_String ''userId'' ''U'' :: string Field]) [''userId'']"
    by (auto simp: range_order_def extractFields_target_def zap_String_def)
  have d: "extractFields sample_logger failing_conv [] [''userId''] () [zap_String ''userId'' ''U''] =
     [zap_String ''userId'' ''U'']"
    by (simp add: extractFields_def extractFields_target_def failing_conv_def zap_String_def)
  from conversion_failure_swallowed [of failing_conv "()", OF a b, of sample_logger "''boom''"]
    a b d
  show ?thesis
    by (intro conjI) simp_all
qed



end
